theory Spec2Isabelle
  imports Main
begin

section \<open>Brainbrew: session state, pages and the quiz state machine\<close>

text \<open>
  The application is a set of page scripts over one shared session store. A script run
  reads the widgets (which button was clicked, which radio entry is selected), mutates
  the store and ends in one of three ways: it reaches its last line, it asks for a rerun
  (\<^verbatim>\<open>st.rerun()\<close> stops the run at once), or a Python exception escapes. The store
  keeps every mutation made before the run stopped.

  Calls that leave the process (the HTTP probe, the process launch, the generation
  chains) are parameters of the model: a function from the arguments the code passes to
  what the call returns or raises. The rendering library is outside the code; what the
  code hands to it is recorded in call order, its own argument checks are not modelled.
\<close>

subsection \<open>Values\<close>

datatype py_error =
    ZeroDivisionError
  | IndexError
  | KeyError
  | TypeError
  | Remote_failure string
  | Other_exception string

datatype outcome = Finished | Rerun | Raised py_error

text \<open>\<^verbatim>\<open>QuestionItem\<close> of \<^verbatim>\<open>Quiz.py\<close>; the dictionary of options keeps its insertion
  order, which the page relies on, so it is an association list.\<close>

record question_item =
  question :: string
  options :: "(string \<times> bool) list"

record message =
  role :: string
  content :: string

text \<open>The keys of \<^verbatim>\<open>st.session_state\<close> that \<^verbatim>\<open>App.py\<close> initialises.\<close>

record session =
  status :: string
  user_input :: "string option"
  quiz_questions :: "question_item list option"
  current_question_idx :: int
  score :: int
  attempted_questions :: "int set"
  quiz_completed :: bool
  total_questions :: int
  groq_api_key :: "string option"
  messages :: "message list"
  session_notes :: "string option"
  first_time :: bool

text \<open>What a run hands to the rendering library, in call order.\<close>

datatype ui =
    Progress int int
  | Attempted_text int int
  | Markdown string
  | Write string
  | Divider
  | Radio "string list"
  | Button string
  | Header string
  | Pie_chart int int
  | Success string
  | Container string
  | Chat string string

datatype chain_call =
    Notes_chain "string option"
  | Questions_chain "string option"
  | Answer_chain string
  | Quiz_chain "string option"

record run =
  sess :: session
  shown :: "ui list"
  chains :: "chain_call list"
  ended :: outcome

definition stop :: "session \<Rightarrow> ui list \<Rightarrow> outcome \<Rightarrow> run" where
  "stop s page how = \<lparr>sess = s, shown = page, chains = [], ended = how\<rparr>"

subsection \<open>Python list and dictionary reads\<close>

text \<open>\<^verbatim>\<open>xs[i]\<close>: a negative index counts from the end, a position outside the list raises.\<close>

definition getitem :: "'a list \<Rightarrow> int \<Rightarrow> py_error + 'a" where
  "getitem xs i =
     (if 0 \<le> i \<and> i < int (length xs) then Inr (xs ! nat i)
      else if i < 0 \<and> - int (length xs) \<le> i then Inr (xs ! nat (int (length xs) + i))
      else Inl IndexError)"

text \<open>\<^verbatim>\<open>options[answer]\<close>, where \<^verbatim>\<open>answer\<close> is a label or \<^verbatim>\<open>None\<close>; the keys are strings,
  so \<^verbatim>\<open>None\<close> is never one of them.\<close>

definition lookup :: "(string \<times> bool) list \<Rightarrow> string option \<Rightarrow> py_error + bool" where
  "lookup opts answer =
     (case answer of
        None \<Rightarrow> Inl KeyError
      | Some k \<Rightarrow> (case map_of opts k of None \<Rightarrow> Inl KeyError | Some v \<Rightarrow> Inr v))"

subsection \<open>The quiz page: \<^verbatim>\<open>quiz()\<close> of \<^verbatim>\<open>Quiz.py\<close>\<close>

text \<open>Lines 106 to 115: the four labels are read at the constant positions 0 to 3, one
  after the other; the first missing position raises after the earlier ones are shown.\<close>

fun option_labels :: "string list \<Rightarrow> ui list \<times> py_error option" where
  "option_labels (a # b # c # d # rest) =
     ([Markdown (''A: '' @ a), Markdown (''B: '' @ b),
       Markdown (''C: '' @ c), Markdown (''D: '' @ d)], None)"
| "option_labels [a, b, c] =
     ([Markdown (''A: '' @ a), Markdown (''B: '' @ b), Markdown (''C: '' @ c)],
      Some IndexError)"
| "option_labels [a, b] =
     ([Markdown (''A: '' @ a), Markdown (''B: '' @ b)], Some IndexError)"
| "option_labels [a] = ([Markdown (''A: '' @ a)], Some IndexError)"
| "option_labels [] = ([], Some IndexError)"

text \<open>Lines 121 to 131, the conditional expression; it is evaluated only after all four
  labels were shown, so the positions it reads exist.\<close>

definition selected :: "string list \<Rightarrow> string \<Rightarrow> string option" where
  "selected option_items choice =
     (if choice = ''A'' then Some (option_items ! 0)
      else if choice = ''B'' then Some (option_items ! 1)
      else if choice = ''C'' then Some (option_items ! 2)
      else if choice = ''D'' then Some (option_items ! 3)
      else None)"


text \<open>Lines 132 to 141: both branches add the current index to the attempted set.\<close>

definition next_question :: "session \<Rightarrow> bool \<Rightarrow> session" where
  "next_question s correct =
     (let s1 = (if correct
                then s\<lparr>score := score s + 1,
                       attempted_questions :=
                         insert (current_question_idx s) (attempted_questions s)\<rparr>
                else s\<lparr>attempted_questions :=
                         insert (current_question_idx s) (attempted_questions s)\<rparr>)
      in s1\<lparr>current_question_idx := current_question_idx s1 + 1\<rparr>)"

text \<open>Lines 150 to 163.\<close>

definition end_screen :: "session \<Rightarrow> ui list \<Rightarrow> int \<Rightarrow> run" where
  "end_screen s page total_n =
     (if quiz_completed s
      then stop s (page @ [Header ''Quiz Complete!'',
                           Pie_chart (score s) (total_n - score s)]) Finished
      else stop s page Finished)"

text \<open>Lines 145 to 147, then the end screen.\<close>

definition check_complete :: "session \<Rightarrow> ui list \<Rightarrow> int \<Rightarrow> run" where
  "check_complete s page total_n =
     (if current_question_idx s \<ge> total_n
      then stop (s\<lparr>quiz_completed := True\<rparr>) page Rerun
      else end_screen s page total_n)"

text \<open>Lines 93 to 142: the question at the current index, its labels, the radio and
  the button. \<^verbatim>\<open>choice\<close> is what the radio returns, \<^verbatim>\<open>pressed\<close> whether this run was
  started by a click on the button.\<close>

definition question_step ::
  "session \<Rightarrow> question_item list \<Rightarrow> int \<Rightarrow> ui list \<Rightarrow> string option \<Rightarrow> bool \<Rightarrow> run" where
  "question_step s questions total_n bar choice pressed =
     (case getitem questions (current_question_idx s) of
        Inl e \<Rightarrow> stop s bar (Raised e)
      | Inr current_question \<Rightarrow>
          (let opts = options current_question;
               option_items = map fst opts;
               page = bar @ [Markdown (''### '' @ question current_question), Divider]
                          @ fst (option_labels option_items)
           in case snd (option_labels option_items) of
                Some e \<Rightarrow> stop s page (Raised e)
              | None \<Rightarrow>
                  (let page2 = page @ [Radio [''A'', ''B'', ''C'', ''D''],
                                       Button ''Next Question'']
                   in if pressed then
                        (case choice of
                           None \<Rightarrow> stop s page2 Rerun
                         | Some c \<Rightarrow>
                             if c = [] then stop s page2 Rerun
                             else (case lookup opts (selected option_items c) of
                                     Inl e \<Rightarrow> stop s page2 (Raised e)
                                   | Inr correct \<Rightarrow>
                                       stop (next_question s correct) page2 Rerun))
                      else check_complete s page2 total_n)))"

text \<open>The whole function. \<^verbatim>\<open>len(None)\<close> raises \<^verbatim>\<open>TypeError\<close>; the division of line 85
  raises when the list is empty, after line 83 has stored the total.\<close>

definition quiz :: "session \<Rightarrow> string option \<Rightarrow> bool \<Rightarrow> run" where
  "quiz s0 choice pressed =
     (case quiz_questions s0 of
        None \<Rightarrow> stop s0 [] (Raised TypeError)
      | Some questions \<Rightarrow>
          (let total_n = int (length questions);
               s = s0\<lparr>total_questions := total_n\<rparr>;
               n = int (card (attempted_questions s))
           in if total_n = 0 then stop s [] (Raised ZeroDivisionError)
              else
                (let bar = [Progress n total_n, Attempted_text n total_n]
                 in if \<not> quiz_completed s then
                      (if current_question_idx s < total_n
                       then question_step s questions total_n bar choice pressed
                       else check_complete s bar total_n)
                    else end_screen s bar total_n)))"

subsection \<open>Reruns and clicks\<close>

text \<open>A rerun executes the page again with no button clicked and the radio where the
  user left it; it goes on for as long as the run asks for another one.\<close>

function rerun_quiz :: "session \<Rightarrow> string option \<Rightarrow> run" where
  "rerun_quiz s choice =
     (let r = quiz s choice False
      in if ended r = Rerun then rerun_quiz (sess r) choice else r)"
  by pat_completeness auto
termination
proof (relation "measure (\<lambda>(s, choice). if quiz_completed s then 0 else 1)")
  show "wf (measure (\<lambda>(s, choice). if quiz_completed s then (0::nat) else 1))"
    by simp
next
  fix s :: session and choice :: "string option" and r :: run
  assume r: "r = quiz s choice False" and again: "ended r = Rerun"
  from again have "\<not> quiz_completed s \<and> quiz_completed (sess r)"
    unfolding r
    by (auto simp: quiz_def question_step_def check_complete_def end_screen_def stop_def
          Let_def split: option.splits sum.splits if_splits)
  then show "((sess r, choice), (s, choice))
       \<in> measure (\<lambda>(s, choice). if quiz_completed s then 0 else 1)"
    by simp
qed

declare rerun_quiz.simps [simp del]

text \<open>One click on "Next Question" with the radio at \<^verbatim>\<open>choice\<close>: the run the click
  starts, followed by the reruns it asks for.\<close>

definition submit :: "session \<Rightarrow> string option \<Rightarrow> run" where
  "submit s choice =
     (let r = quiz s choice True
      in if ended r = Rerun then rerun_quiz (sess r) choice else r)"

fun submissions :: "session \<Rightarrow> string option list \<Rightarrow> session" where
  "submissions s [] = s"
| "submissions s (choice # later) = submissions (sess (submit s choice)) later"

subsection \<open>\<^verbatim>\<open>App.py\<close>: liveness check, bootstrap, defaults\<close>

text \<open>\<^verbatim>\<open>requests.get(url, timeout=t)\<close> answers with a status code, raises a
  \<^verbatim>\<open>RequestException\<close> (connection refused, timeout, ...) or raises something else.\<close>

datatype http_result = Response int | Request_exception string | Get_raises string

definition is_ollama_running :: "(string \<Rightarrow> nat \<Rightarrow> http_result) \<Rightarrow> py_error + bool" where
  "is_ollama_running requests_get =
     (case requests_get ''http://localhost:11434'' 2 of
        Response status_code \<Rightarrow> Inr (status_code = 200)
      | Request_exception e \<Rightarrow> Inr False
      | Get_raises e \<Rightarrow> Inl (Other_exception e))"

text \<open>\<^verbatim>\<open>subprocess.Popen(args)\<close> starts the process or raises an \<^verbatim>\<open>Exception\<close> \<^verbatim>\<open>e\<close>
  (an \<^verbatim>\<open>OSError\<close> such as a missing executable); the string is \<^verbatim>\<open>str(e)\<close>.\<close>

datatype popen_result = Launched | Launch_raises string

datatype effect = Popen "string list" | Sleep nat

definition start_ollama ::
  "(string list \<Rightarrow> popen_result) \<Rightarrow> session \<Rightarrow> session \<times> effect list \<times> string option" where
  "start_ollama popen s =
     (case popen [''ollama'', ''serve''] of
        Launched \<Rightarrow>
          (s\<lparr>status := ''Online''\<rparr>, [Popen [''ollama'', ''serve''], Sleep 3], None)
      | Launch_raises e \<Rightarrow>
          (s, [Popen [''ollama'', ''serve'']], Some (''Failed to start Ollama:'' @ e)))"

text \<open>Lines 48 to 78 on a fresh session: every key is still missing, so each default
  is stored. The bootstrap of lines 51 to 54 touches the status only, the defaults of
  lines 56 to 78 touch the other keys only.\<close>

definition init_session :: session where
  "init_session =
     \<lparr>status = ''Offline'', user_input = None, quiz_questions = None,
      current_question_idx = 0, score = 0, attempted_questions = {},
      quiz_completed = False, total_questions = 1, groq_api_key = None,
      messages = [], session_notes = None, first_time = True\<rparr>"

record startup =
  store :: session
  effects :: "effect list"
  sidebar :: "ui list"

definition app_startup ::
  "(string \<Rightarrow> nat \<Rightarrow> http_result) \<Rightarrow> (string list \<Rightarrow> popen_result) \<Rightarrow> py_error + startup" where
  "app_startup requests_get popen =
     (case is_ollama_running requests_get of
        Inl e \<Rightarrow> Inl e
      | Inr running \<Rightarrow>
          if \<not> running then
            (case start_ollama popen init_session of
               (s, done, returned) \<Rightarrow>
                 Inr \<lparr>store = s, effects = done,
                      sidebar = (if status s = ''Online''
                                 then [Success ''ollama is running''] else [])\<rparr>)
          else Inr \<lparr>store = init_session, effects = [], sidebar = []\<rparr>)"

subsection \<open>\<^verbatim>\<open>Main.py\<close>: the form\<close>

text \<open>Both fields are stored on every run; an empty text area gives the empty string.\<close>

definition main_page :: "session \<Rightarrow> string \<Rightarrow> string \<Rightarrow> session" where
  "main_page s key topics =
     s\<lparr>first_time := False, groq_api_key := Some key, user_input := Some topics\<rparr>"

subsection \<open>\<^verbatim>\<open>Notes.py\<close>\<close>

text \<open>Each of the three generation pages first builds its chat model from the stored
  key, a call into the client library whose outcome this code does not determine; the
  definitions below are the page from its guard on, once that call has returned.\<close>

definition please_enter :: string where
  "please_enter = ''Please enter some topics to get started.''"

definition notes_page :: "(string option \<Rightarrow> py_error + string) \<Rightarrow> session \<Rightarrow> bool \<Rightarrow> run" where
  "notes_page notes_chain s pressed =
     (if user_input s \<noteq> Some '''' then
        (case session_notes s of
           None \<Rightarrow>
             if pressed then
               (case notes_chain (user_input s) of
                  Inl e \<Rightarrow>
                    \<lparr>sess = s, shown = [Button ''Generate Notes''],
                     chains = [Notes_chain (user_input s)], ended = Raised e\<rparr>
                | Inr text \<Rightarrow>
                    \<lparr>sess = s\<lparr>session_notes := Some text\<rparr>,
                     shown = [Button ''Generate Notes'', Container text, Divider],
                     chains = [Notes_chain (user_input s)], ended = Finished\<rparr>)
             else stop s [Button ''Generate Notes''] Finished
         | Some text \<Rightarrow> stop s [Container text] Finished)
      else stop s [Write please_enter] Finished)"

subsection \<open>\<^verbatim>\<open>QnA.py\<close>\<close>

text \<open>Lines 114 to 129: the question is logged before its answer is requested; a failing
  answer call ends the run there.\<close>

fun generate_loop :: "(string \<Rightarrow> py_error + string) \<Rightarrow> string list \<Rightarrow> run \<Rightarrow> run" where
  "generate_loop answer_chain [] r = r"
| "generate_loop answer_chain (ques # later) r =
     (let r1 = r\<lparr>sess := (sess r)\<lparr>messages := messages (sess r)
                                 @ [\<lparr>role = ''assistant'', content = ques\<rparr>]\<rparr>,
                  shown := shown r @ [Chat ''user'' ques],
                  chains := chains r @ [Answer_chain ques]\<rparr>
      in case answer_chain ques of
           Inl e \<Rightarrow> r1\<lparr>ended := Raised e\<rparr>
         | Inr answer \<Rightarrow>
             generate_loop answer_chain later
               (r1\<lparr>sess := (sess r1)\<lparr>messages := messages (sess r1)
                                    @ [\<lparr>role = ''user'', content = answer\<rparr>]\<rparr>,
                    shown := shown r1 @ [Chat ''assistant'' answer, Divider]\<rparr>))"

text \<open>Lines 107 to 109. \<^verbatim>\<open>st.cache_data\<close> keeps what the function returned, for the
  process and not for the session. \<^verbatim>\<open>cache_questions\<close> has no parameter, so there is one
  entry: the first call that returns fills it, and every later call is handed the entry
  without invoking the questions chain, whatever the stored topics are by then. A call
  that raises stores nothing. The entry is \<^verbatim>\<open>None\<close> as long as no call has returned.\<close>

record cached_call =
  returned :: "py_error + string list"
  entry :: "string list option"
  invoked :: "chain_call list"

definition cache_questions ::
  "(string option \<Rightarrow> py_error + string list) \<Rightarrow> string list option \<Rightarrow> session
     \<Rightarrow> cached_call" where
  "cache_questions questions_chain cache s =
     (case cache of
        Some cached \<Rightarrow> \<lparr>returned = Inr cached, entry = Some cached, invoked = []\<rparr>
      | None \<Rightarrow>
          (case questions_chain (user_input s) of
             Inl e \<Rightarrow>
               \<lparr>returned = Inl e, entry = None,
                invoked = [Questions_chain (user_input s)]\<rparr>
           | Inr generated \<Rightarrow>
               \<lparr>returned = Inr generated, entry = Some generated,
                invoked = [Questions_chain (user_input s)]\<rparr>))"

text \<open>Lines 111 to 129: the first element of what \<^verbatim>\<open>cache_questions\<close> returns is sliced
  away. The result is the run together with the cache entry it leaves behind.\<close>

definition generate_qna ::
  "(string option \<Rightarrow> py_error + string list) \<Rightarrow> (string \<Rightarrow> py_error + string)
     \<Rightarrow> string list option \<Rightarrow> session \<Rightarrow> ui list \<Rightarrow> run \<times> string list option" where
  "generate_qna questions_chain answer_chain cache s page =
     (let call = cache_questions questions_chain cache s
      in (case returned call of
            Inl e \<Rightarrow>
              \<lparr>sess = s, shown = page, chains = invoked call, ended = Raised e\<rparr>
          | Inr questions \<Rightarrow>
              generate_loop answer_chain (drop 1 questions)
                \<lparr>sess = s, shown = page, chains = invoked call, ended = Finished\<rparr>,
          entry call))"

definition show_message :: "message \<Rightarrow> ui" where
  "show_message m =
     (if role m = ''user'' then Chat ''user'' (content m)
      else Chat ''assistant'' (content m))"

text \<open>Lines 91 to 134: the page, and the cache entry after the run.\<close>

definition qna_page ::
  "(string option \<Rightarrow> py_error + string list) \<Rightarrow> (string \<Rightarrow> py_error + string)
     \<Rightarrow> string list option \<Rightarrow> session \<Rightarrow> bool \<Rightarrow> run \<times> string list option" where
  "qna_page questions_chain answer_chain cache s pressed =
     (if user_input s \<noteq> Some '''' then
        (let page = map show_message (messages s) @ [Button ''Generate Question Answers'']
         in if pressed then generate_qna questions_chain answer_chain cache s page
            else (stop s page Finished, cache))
      else (stop s [Write please_enter] Finished, cache))"

subsection \<open>\<^verbatim>\<open>Quiz.py\<close>: the module level\<close>

text \<open>Lines 166 to 178. In the run that generates the quiz the radio and the "Next
  Question" button are created for the first time: the radio returns its first entry,
  the button was not clicked.\<close>

definition quiz_page ::
  "(string option \<Rightarrow> py_error + question_item list) \<Rightarrow> session \<Rightarrow> bool
     \<Rightarrow> string option \<Rightarrow> bool \<Rightarrow> run" where
  "quiz_page quiz_chain s generate choice pressed =
     (case quiz_questions s of
        None \<Rightarrow>
          if generate then
            (case quiz_chain (user_input s) of
               Inl e \<Rightarrow>
                 \<lparr>sess = s, shown = [Button ''Generate Quiz''],
                  chains = [Quiz_chain (user_input s)], ended = Raised e\<rparr>
             | Inr generated \<Rightarrow>
                 (let r = quiz (s\<lparr>quiz_questions := Some generated\<rparr>) (Some ''A'') False
                  in r\<lparr>shown := [Button ''Generate Quiz'', Success ''Quiz generated!'']
                                 @ shown r
                                 @ (if ended r = Finished
                                    then [Markdown ''Click generate quiz to generate a quiz'']
                                    else []),
                       chains := [Quiz_chain (user_input s)]\<rparr>))
          else stop s [Button ''Generate Quiz'',
                       Markdown ''Click generate quiz to generate a quiz''] Finished
      | Some questions \<Rightarrow> quiz s choice pressed)"

text \<open>The store right after the quiz chain has returned \<^verbatim>\<open>questions\<close> in a fresh
  session (line 170): index 0, nothing attempted, score 0.\<close>

definition generated_quiz :: "question_item list \<Rightarrow> session" where
  "generated_quiz questions = init_session\<lparr>quiz_questions := Some questions\<rparr>"

subsection \<open>Specification-side notions and sample data\<close>

text \<open>What the specification calls a question/answer pair in the message log: the
  question, then its answer.\<close>

definition qna_pair :: "(string \<Rightarrow> string) \<Rightarrow> string \<Rightarrow> message list" where
  "qna_pair answer_of ques =
     [\<lparr>role = ''assistant'', content = ques\<rparr>, \<lparr>role = ''user'', content = answer_of ques\<rparr>]"

text \<open>A record as the quiz prompt asks for it, and one with two options only.\<close>

definition sample_question :: question_item where
  "sample_question =
     \<lparr>question = ''2 + 2 = ?'',
      options = [(''4'', True), (''3'', False), (''5'', False), (''22'', False)]\<rparr>"

definition short_question :: question_item where
  "short_question =
     \<lparr>question = ''True or false?'', options = [(''true'', True), (''false'', False)]\<rparr>"

text \<open>What holds of the quiz progress after any number of clicks: the questions are
  the generated ones, the attempted indices are exactly those below the current index,
  and the score and the index are bounded as stated.\<close>

definition quiz_invariant :: "question_item list \<Rightarrow> session \<Rightarrow> bool" where
  "quiz_invariant qs s =
     (quiz_questions s = Some qs
      \<and> 0 \<le> current_question_idx s
      \<and> current_question_idx s \<le> int (length qs)
      \<and> current_question_idx s \<le> total_questions s
      \<and> attempted_questions s = {0 ..< current_question_idx s}
      \<and> score s \<le> current_question_idx s)"

section \<open>Properties\<close>

subsection \<open>Liveness check and bootstrap\<close>

text \<open>
  Claim C7. The liveness check returns true exactly when the GET to the fixed local
  address, with the timeout of 2 seconds, is answered with status code 200. Whenever
  the request is answered, the check returns a truth value, namely whether the status
  code is 200: every other status code gives false, not an exception. When the request
  raises a request exception (unreachable, timeout) the check returns false and does
  not raise.
\<close>

theorem liveness_check:
  "(is_ollama_running requests_get = Inr True)
     = (requests_get ''http://localhost:11434'' 2 = Response 200)
   \<and> (\<forall>status_code. requests_get ''http://localhost:11434'' 2 = Response status_code
          \<longrightarrow> is_ollama_running requests_get = Inr (status_code = 200))
   \<and> (\<forall>e. requests_get ''http://localhost:11434'' 2 = Request_exception e
          \<longrightarrow> is_ollama_running requests_get = Inr False)"
  by (simp add: is_ollama_running_def split: http_result.splits)

theorem liveness_check_witness:
  "is_ollama_running (\<lambda>url timeout. Request_exception ''connection refused'') = Inr False
   \<and> is_ollama_running (\<lambda>url timeout. Response 200) = Inr True
   \<and> is_ollama_running (\<lambda>url timeout. Response 404) = Inr False"
  using liveness_check [of "\<lambda>url timeout. Request_exception ''connection refused''"]
    liveness_check [of "\<lambda>url timeout. Response 200"]
    liveness_check [of "\<lambda>url timeout. Response 404"]
  by simp

lemma probe_refused:
  "is_ollama_running (\<lambda>url timeout. Request_exception e) = Inr False"
  by (simp add: is_ollama_running_def)

text \<open>
  Claim C8. The bootstrap never raises. When the launch fails with an exception \<open>e\<close>,
  \<^verbatim>\<open>start_ollama\<close> returns the string "Failed to start Ollama:" followed by \<open>str(e)\<close>,
  leaves the session as it was and launches once only (no retry, no delay); the start
  of the application then still stores every default. When the launch succeeds it waits
  3 seconds, sets the status to "Online" and returns \<^verbatim>\<open>None\<close>.
\<close>

theorem bootstrap_never_raises:
  "(popen [''ollama'', ''serve''] = Launch_raises e \<longrightarrow>
      start_ollama popen s
        = (s, [Popen [''ollama'', ''serve'']], Some (''Failed to start Ollama:'' @ e))
      \<and> (is_ollama_running requests_get = Inr False \<longrightarrow>
           app_startup requests_get popen
             = Inr \<lparr>store = init_session, effects = [Popen [''ollama'', ''serve'']],
                    sidebar = []\<rparr>))
   \<and> (popen [''ollama'', ''serve''] = Launched \<longrightarrow>
      start_ollama popen s
        = (s\<lparr>status := ''Online''\<rparr>, [Popen [''ollama'', ''serve''], Sleep 3], None))"
  by (simp add: start_ollama_def app_startup_def init_session_def)

theorem bootstrap_never_raises_witness:
  "start_ollama (\<lambda>args. Launch_raises ''No such file'') init_session
     = (init_session, [Popen [''ollama'', ''serve'']],
        Some ''Failed to start Ollama:No such file'')
   \<and> app_startup (\<lambda>url timeout. Request_exception ''refused'')
        (\<lambda>args. Launch_raises ''No such file'')
       = Inr \<lparr>store = init_session, effects = [Popen [''ollama'', ''serve'']], sidebar = []\<rparr>
   \<and> start_ollama (\<lambda>args. Launched) init_session
     = (init_session\<lparr>status := ''Online''\<rparr>, [Popen [''ollama'', ''serve''], Sleep 3], None)"
  using bootstrap_never_raises [of "\<lambda>args. Launch_raises ''No such file''" "''No such file''"
      init_session "\<lambda>url timeout. Request_exception ''refused''"]
    bootstrap_never_raises [of "\<lambda>args. Launched" "''x''" init_session
      "\<lambda>url timeout. Request_exception ''refused''"]
    probe_refused [of "''refused''"]
  by simp

subsection \<open>The topic guards of the pages\<close>



text \<open>The two cases of the cached call: an empty cache invokes the questions chain with
  the stored topics, a filled one hands back its entry and invokes nothing.\<close>

lemma cache_questions_cold:
  "returned (cache_questions questions_chain None s) = questions_chain (user_input s)"
  "invoked (cache_questions questions_chain None s) = [Questions_chain (user_input s)]"
  by (simp_all add: cache_questions_def split: sum.splits)

lemma cache_questions_warm:
  "cache_questions questions_chain (Some cached) s
     = \<lparr>returned = Inr cached, entry = Some cached, invoked = []\<rparr>"
  by (simp add: cache_questions_def)



lemma init_session_fields:
  "user_input init_session = None" "messages init_session = []"
  "session_notes init_session = None" "quiz_questions init_session = None"
  "current_question_idx init_session = 0" "score init_session = 0"
  "attempted_questions init_session = {}" "quiz_completed init_session = False"
  "total_questions init_session = 1"
  by (simp_all add: init_session_def)

text \<open>With the empty string as topic the Notes page and the Q&A page show the request
  for topics and nothing else: no button, no chain.\<close>

lemma empty_topic_guard:
  "user_input s = Some '''' \<Longrightarrow>
     notes_page notes_chain s pressed = stop s [Write please_enter] Finished
     \<and> qna_page questions_chain answer_chain cache s pressed
         = (stop s [Write please_enter] Finished, cache)"
  by (simp add: notes_page_def qna_page_def)

text \<open>
  Claim C6, on the Quiz page. The form of \<^verbatim>\<open>Main.py\<close> submitted with an empty text area
  stores the empty string as topic. The Quiz page does not look at the topic: it offers
  "Generate Quiz", and a click invokes the quiz chain with the empty topic. The claim
  (no chain is invoked on any page for the empty topic) fails here.
\<close>

theorem quiz_page_ignores_empty_topic:
  "user_input (main_page init_session key '''') = Some ''''
   \<and> chains (quiz_page quiz_chain (main_page init_session key '''') True choice pressed)
       = [Quiz_chain (Some '''')]
   \<and> quiz_page quiz_chain (main_page init_session key '''') False choice pressed
       = stop (main_page init_session key '''')
           [Button ''Generate Quiz'', Markdown ''Click generate quiz to generate a quiz'']
           Finished"
  by (simp add: quiz_page_def main_page_def init_session_fields Let_def split: sum.splits)


subsection \<open>The question and answer log\<close>

lemma generate_loop_log:
  assumes "\<forall>q \<in> set qs. answer_chain q = Inr (answer_of q)"
  shows "messages (sess (generate_loop answer_chain qs r))
           = messages (sess r) @ concat (map (qna_pair answer_of) qs)
         \<and> chains (generate_loop answer_chain qs r) = chains r @ map Answer_chain qs
         \<and> ended (generate_loop answer_chain qs r) = ended r"
  using assms
proof (induction qs arbitrary: r)
  case Nil
  show ?case by simp
next
  case (Cons q qs)
  define r2 where "r2 = r\<lparr>sess := (sess r)\<lparr>messages := messages (sess r)
                               @ [\<lparr>role = ''assistant'', content = q\<rparr>,
                                  \<lparr>role = ''user'', content = answer_of q\<rparr>]\<rparr>,
                shown := shown r @ [Chat ''user'' q, Chat ''assistant'' (answer_of q), Divider],
                chains := chains r @ [Answer_chain q]\<rparr>"
  from Cons.prems have a: "answer_chain q = Inr (answer_of q)" by simp
  have step: "generate_loop answer_chain (q # qs) r = generate_loop answer_chain qs r2"
    by (cases r) (simp add: a Let_def r2_def)
  from Cons.prems have "\<forall>q \<in> set qs. answer_chain q = Inr (answer_of q)" by simp
  from Cons.IH [OF this, of r2]
  have "messages (sess (generate_loop answer_chain qs r2))
           = messages (sess r2) @ concat (map (qna_pair answer_of) qs)
         \<and> chains (generate_loop answer_chain qs r2) = chains r2 @ map Answer_chain qs
         \<and> ended (generate_loop answer_chain qs r2) = ended r2" .
  moreover have "messages (sess r2) = messages (sess r) @ qna_pair answer_of q"
    "chains r2 = chains r @ [Answer_chain q]" "ended r2 = ended r"
    by (simp_all add: r2_def qna_pair_def)
  ultimately show ?case
    by (simp only: step) simp
qed

lemma length_qna_pairs: "length (concat (map (qna_pair answer_of) qs)) = 2 * length qs"
  by (induction qs) (simp_all add: qna_pair_def)

text \<open>
  Claim C4. Let the question generation, that is the call of \<^verbatim>\<open>cache_questions\<close>,
  return a list of \<open>N\<close> strings, and let every answer call return. Then the Q&A
  generation drops the first element and appends to the message log, for each
  remaining question in order, the question immediately followed by its answer:
  \<open>N - 1\<close> pairs, that is \<open>2 * (N - 1)\<close> messages; the answer chain is invoked once per
  remaining question, in that order, and the list is the cache entry afterwards. The
  list is what the questions chain returns for the stored topics when the cache is
  empty, and the cached list, with no call of the questions chain, when it is filled.
  (For an empty list nothing is dropped and nothing is appended.)
\<close>

theorem qna_log:
  assumes "returned (cache_questions questions_chain cache s) = Inr generated"
    and "\<forall>q \<in> set (drop 1 generated). answer_chain q = Inr (answer_of q)"
  shows "messages (sess (fst (generate_qna questions_chain answer_chain cache s page)))
           = messages s @ concat (map (qna_pair answer_of) (drop 1 generated))
         \<and> length (concat (map (qna_pair answer_of) (drop 1 generated)))
             = 2 * (length generated - 1)
         \<and> chains (fst (generate_qna questions_chain answer_chain cache s page))
             = invoked (cache_questions questions_chain cache s)
               @ map Answer_chain (drop 1 generated)
         \<and> ended (fst (generate_qna questions_chain answer_chain cache s page)) = Finished
         \<and> snd (generate_qna questions_chain answer_chain cache s page) = Some generated
         \<and> (cache = None \<longrightarrow>
              questions_chain (user_input s) = Inr generated
              \<and> invoked (cache_questions questions_chain cache s)
                  = [Questions_chain (user_input s)])
         \<and> (\<forall>cached. cache = Some cached \<longrightarrow>
              generated = cached \<and> invoked (cache_questions questions_chain cache s) = [])"
proof -
  have log: "messages (sess (fst (generate_qna questions_chain answer_chain cache s page)))
           = messages s @ concat (map (qna_pair answer_of) (drop 1 generated))
         \<and> chains (fst (generate_qna questions_chain answer_chain cache s page))
             = invoked (cache_questions questions_chain cache s)
               @ map Answer_chain (drop 1 generated)
         \<and> ended (fst (generate_qna questions_chain answer_chain cache s page)) = Finished"
    using generate_loop_log [OF assms(2),
        of "\<lparr>sess = s, shown = page,
             chains = invoked (cache_questions questions_chain cache s),
             ended = Finished\<rparr>"]
    by (simp add: generate_qna_def assms(1) Let_def)
  have kept: "snd (generate_qna questions_chain answer_chain cache s page) = Some generated"
    using assms(1)
    by (auto simp: generate_qna_def cache_questions_def Let_def
          split: option.splits sum.splits)
  have cold: "cache = None \<longrightarrow>
              questions_chain (user_input s) = Inr generated
              \<and> invoked (cache_questions questions_chain cache s)
                  = [Questions_chain (user_input s)]"
    using assms(1) by (auto simp: cache_questions_cold)
  have warm: "\<forall>cached. cache = Some cached \<longrightarrow>
              generated = cached \<and> invoked (cache_questions questions_chain cache s) = []"
    using assms(1) by (auto simp: cache_questions_warm)
  from log kept cold warm show ?thesis
    by (simp add: length_qna_pairs)
qed

text \<open>On an empty cache the questions generated for the stored topics are logged; on a
  cache filled under an earlier topic the cached ones are, and the questions chain is
  not invoked.\<close>

theorem qna_log_witness:
  "messages (sess (fst (generate_qna (\<lambda>topics. Inr [''preamble'', ''Q1'', ''Q2''])
                          (\<lambda>q. Inr (''answer to '' @ q)) None
                          (main_page init_session ''key'' ''Newton'') [])))
     = [\<lparr>role = ''assistant'', content = ''Q1''\<rparr>,
        \<lparr>role = ''user'', content = ''answer to Q1''\<rparr>,
        \<lparr>role = ''assistant'', content = ''Q2''\<rparr>,
        \<lparr>role = ''user'', content = ''answer to Q2''\<rparr>]
   \<and> snd (generate_qna (\<lambda>topics. Inr [''preamble'', ''Q1'', ''Q2''])
            (\<lambda>q. Inr (''answer to '' @ q)) None
            (main_page init_session ''key'' ''Newton'') [])
       = Some [''preamble'', ''Q1'', ''Q2'']
   \<and> messages (sess (fst (generate_qna (\<lambda>topics. Inr [''preamble'', ''Q1'', ''Q2''])
                            (\<lambda>q. Inr (''answer to '' @ q)) (Some [''old'', ''P1''])
                            (main_page init_session ''key'' ''Newton'') [])))
       = [\<lparr>role = ''assistant'', content = ''P1''\<rparr>,
          \<lparr>role = ''user'', content = ''answer to P1''\<rparr>]
   \<and> chains (fst (generate_qna (\<lambda>topics. Inr [''preamble'', ''Q1'', ''Q2''])
                    (\<lambda>q. Inr (''answer to '' @ q)) (Some [''old'', ''P1''])
                    (main_page init_session ''key'' ''Newton'') []))
       = [Answer_chain ''P1'']"
  using qna_log [of "\<lambda>topics. Inr [''preamble'', ''Q1'', ''Q2'']" None
      "main_page init_session ''key'' ''Newton''" "[''preamble'', ''Q1'', ''Q2'']"
      "\<lambda>q. Inr (''answer to '' @ q)" "\<lambda>q. ''answer to '' @ q" "[]"]
    qna_log [of "\<lambda>topics. Inr [''preamble'', ''Q1'', ''Q2'']" "Some [''old'', ''P1'']"
      "main_page init_session ''key'' ''Newton''" "[''old'', ''P1'']"
      "\<lambda>q. Inr (''answer to '' @ q)" "\<lambda>q. ''answer to '' @ q" "[]"]
  by (simp add: qna_pair_def main_page_def init_session_fields cache_questions_def)

subsection \<open>One run of the quiz page\<close>

lemma option_labels_four: "4 \<le> length xs \<Longrightarrow> snd (option_labels xs) = None"
  by (cases xs rule: option_labels.cases) simp_all

lemma option_labels_fewer: "length xs < 4 \<Longrightarrow> snd (option_labels xs) = Some IndexError"
  by (cases xs rule: option_labels.cases) simp_all

lemma getitem_in_range:
  "0 \<le> i \<Longrightarrow> i < int (length xs) \<Longrightarrow> getitem xs i = Inr (xs ! nat i)"
  by (simp add: getitem_def)

lemma lookup_label:
  assumes "k < length opts"
  shows "\<exists>v. map_of opts (fst (opts ! k)) = Some v
             \<and> lookup opts (Some (map fst opts ! k)) = Inr v"
proof -
  from assms have "fst (opts ! k) \<in> fst ` set opts" by simp
  then obtain v where "map_of opts (fst (opts ! k)) = Some v"
    by (metis map_of_eq_None_iff option.exhaust)
  with assms show ?thesis by (simp add: lookup_def)
qed

lemma selected_letter:
  "(c, k) \<in> {(''A'', 0), (''B'', 1), (''C'', 2), (''D'', 3::nat)}
     \<Longrightarrow> selected items c = Some (items ! k) \<and> c \<noteq> [] \<and> k < 4"
  by (auto simp: selected_def)

text \<open>The run on an in-progress state whose current record has four labels.\<close>

lemma quiz_in_progress:
  assumes "quiz_questions s = Some qs" "\<not> quiz_completed s"
    "0 \<le> current_question_idx s" "current_question_idx s < int (length qs)"
    "4 \<le> length (options (qs ! nat (current_question_idx s)))"
  shows "sess (quiz s choice pressed) =
          (if pressed then
             (case choice of
                None \<Rightarrow> s\<lparr>total_questions := int (length qs)\<rparr>
              | Some c \<Rightarrow>
                  if c = [] then s\<lparr>total_questions := int (length qs)\<rparr>
                  else (case lookup (options (qs ! nat (current_question_idx s)))
                               (selected (map fst (options (qs ! nat (current_question_idx s)))) c) of
                          Inl e \<Rightarrow> s\<lparr>total_questions := int (length qs)\<rparr>
                        | Inr correct \<Rightarrow>
                            next_question (s\<lparr>total_questions := int (length qs)\<rparr>) correct))
           else s\<lparr>total_questions := int (length qs)\<rparr>)"
    and "ended (quiz s choice pressed) =
          (if pressed then
             (case choice of
                None \<Rightarrow> Rerun
              | Some c \<Rightarrow>
                  if c = [] then Rerun
                  else (case lookup (options (qs ! nat (current_question_idx s)))
                               (selected (map fst (options (qs ! nat (current_question_idx s)))) c) of
                          Inl e \<Rightarrow> Raised e
                        | Inr correct \<Rightarrow> Rerun))
           else Finished)"
  using assms
  by (auto simp: quiz_def question_step_def check_complete_def end_screen_def stop_def
        Let_def getitem_in_range option_labels_four
      split: option.splits sum.splits)

lemma quiz_cases:
  assumes "quiz_questions s = Some qs"
  shows "sess (quiz s c b) = s\<lparr>total_questions := int (length qs)\<rparr>
    \<or> (\<not> quiz_completed s \<and> int (length qs) \<le> current_question_idx s \<and> qs \<noteq> []
        \<and> sess (quiz s c b) = s\<lparr>total_questions := int (length qs), quiz_completed := True\<rparr>)
    \<or> (\<not> quiz_completed s \<and> current_question_idx s < int (length qs) \<and> b
        \<and> (\<exists>v. sess (quiz s c b) = next_question (s\<lparr>total_questions := int (length qs)\<rparr>) v))"
  using assms
  by (auto simp: quiz_def question_step_def check_complete_def end_screen_def stop_def
        Let_def split: option.splits sum.splits)

lemma generated_quiz_fields:
  "quiz_questions (generated_quiz qs) = Some qs"
  "current_question_idx (generated_quiz qs) = 0"
  "score (generated_quiz qs) = 0"
  "attempted_questions (generated_quiz qs) = {}"
  "quiz_completed (generated_quiz qs) = False"
  "total_questions (generated_quiz qs) = 1"
  by (simp_all add: generated_quiz_def init_session_def)

text \<open>
  Claim C1. In an in-progress state (quiz not completed, current index below the number
  of questions, current record with its four options), a click on "Next Question" with
  the radio at A, B, C or D adds 1 to the score when the option mapping of the current
  question maps the label at the chosen position to true and leaves the score unchanged
  otherwise, adds the current index to the attempted set and advances the index by one.
  A run that is not such a click (no click, or a click without one of the four letters
  selected) changes neither score, attempted set nor index, in any state.
\<close>

theorem next_question_submission:
  "(quiz_questions s = Some qs \<and> \<not> quiz_completed s
      \<and> 0 \<le> current_question_idx s \<and> current_question_idx s < int (length qs)
      \<and> 4 \<le> length (options (qs ! nat (current_question_idx s)))
      \<and> (c, k) \<in> {(''A'', 0), (''B'', 1), (''C'', 2), (''D'', 3::nat)}
    \<longrightarrow>
      score (sess (quiz s (Some c) True))
        = (if map_of (options (qs ! nat (current_question_idx s)))
                (fst (options (qs ! nat (current_question_idx s)) ! k)) = Some True
           then score s + 1 else score s)
      \<and> attempted_questions (sess (quiz s (Some c) True))
          = insert (current_question_idx s) (attempted_questions s)
      \<and> current_question_idx (sess (quiz s (Some c) True)) = current_question_idx s + 1
      \<and> ended (quiz s (Some c) True) = Rerun)
   \<and> (\<not> (pressed \<and> choice \<in> {Some ''A'', Some ''B'', Some ''C'', Some ''D''})
    \<longrightarrow>
      score (sess (quiz s choice pressed)) = score s
      \<and> attempted_questions (sess (quiz s choice pressed)) = attempted_questions s
      \<and> current_question_idx (sess (quiz s choice pressed)) = current_question_idx s)"
proof (intro conjI impI)
  assume other: "\<not> (pressed \<and> choice \<in> {Some ''A'', Some ''B'', Some ''C'', Some ''D''})"
  show "score (sess (quiz s choice pressed)) = score s"
    using other
    by (auto simp: quiz_def question_step_def check_complete_def end_screen_def stop_def
          Let_def selected_def lookup_def split: option.splits sum.splits)
  show "attempted_questions (sess (quiz s choice pressed)) = attempted_questions s"
    using other
    by (auto simp: quiz_def question_step_def check_complete_def end_screen_def stop_def
          Let_def selected_def lookup_def split: option.splits sum.splits)
  show "current_question_idx (sess (quiz s choice pressed)) = current_question_idx s"
    using other
    by (auto simp: quiz_def question_step_def check_complete_def end_screen_def stop_def
          Let_def selected_def lookup_def split: option.splits sum.splits)
next
  assume h: "quiz_questions s = Some qs \<and> \<not> quiz_completed s
      \<and> 0 \<le> current_question_idx s \<and> current_question_idx s < int (length qs)
      \<and> 4 \<le> length (options (qs ! nat (current_question_idx s)))
      \<and> (c, k) \<in> {(''A'', 0), (''B'', 1), (''C'', 2), (''D'', 3::nat)}"
  define opts where "opts = options (qs ! nat (current_question_idx s))"
  from h have sel: "selected (map fst opts) c = Some (map fst opts ! k)" "c \<noteq> []" "k < 4"
    using selected_letter [of c k "map fst opts"] by simp_all
  from h sel(3) have "k < length opts" by (simp add: opts_def)
  from lookup_label [OF this] obtain v where
    v: "map_of opts (fst (opts ! k)) = Some v" "lookup opts (Some (map fst opts ! k)) = Inr v"
    by blast
  from h have run:
    "sess (quiz s (Some c) True) = next_question (s\<lparr>total_questions := int (length qs)\<rparr>) v"
    "ended (quiz s (Some c) True) = Rerun"
    using quiz_in_progress [of s qs "Some c" True] sel v by (simp_all add: opts_def)
  show "score (sess (quiz s (Some c) True))
        = (if map_of (options (qs ! nat (current_question_idx s)))
                (fst (options (qs ! nat (current_question_idx s)) ! k)) = Some True
           then score s + 1 else score s)"
    using v(1) by (simp add: run next_question_def opts_def)
  show "attempted_questions (sess (quiz s (Some c) True))
          = insert (current_question_idx s) (attempted_questions s)"
    by (simp add: run next_question_def)
  show "current_question_idx (sess (quiz s (Some c) True)) = current_question_idx s + 1"
    by (simp add: run next_question_def)
  show "ended (quiz s (Some c) True) = Rerun" by (rule run)
qed

theorem next_question_submission_witness:
  "score (sess (quiz (generated_quiz [sample_question]) (Some ''A'') True)) = 1
   \<and> attempted_questions (sess (quiz (generated_quiz [sample_question]) (Some ''A'') True)) = {0}
   \<and> current_question_idx (sess (quiz (generated_quiz [sample_question]) (Some ''A'') True)) = 1
   \<and> score (sess (quiz (generated_quiz [sample_question]) (Some ''B'') True)) = 0
   \<and> current_question_idx (sess (quiz (generated_quiz [sample_question]) (Some ''B'') True)) = 1
   \<and> current_question_idx (sess (quiz (generated_quiz [sample_question]) (Some ''A'') False)) = 0"
  using next_question_submission [of "generated_quiz [sample_question]" "[sample_question]"
      "''A''" 0 False "Some ''A''"]
    next_question_submission [of "generated_quiz [sample_question]" "[sample_question]"
      "''B''" 1 False "Some ''A''"]
  by (simp add: generated_quiz_fields sample_question_def)





text \<open>
  Claim C9. Rendering the quiz is partial. With an empty question list the division for
  the progress bar raises \<^verbatim>\<open>ZeroDivisionError\<close>; when the record at the current index
  has fewer than four options, showing the labels raises \<^verbatim>\<open>IndexError\<close>. When the list
  is non-empty and every record has at least four options, a run (index not negative,
  radio at one of its entries) raises nothing, and the first thing it shows is the
  progress: attempted count over the length of the question list.
\<close>

theorem rendering_is_partial:
  "(quiz_questions s = Some [] \<longrightarrow> ended (quiz s choice pressed) = Raised ZeroDivisionError)
   \<and> (quiz_questions s = Some qs \<and> \<not> quiz_completed s
        \<and> 0 \<le> current_question_idx s \<and> current_question_idx s < int (length qs)
        \<and> length (options (qs ! nat (current_question_idx s))) < 4
      \<longrightarrow> ended (quiz s choice pressed) = Raised IndexError)
   \<and> (quiz_questions s = Some qs \<and> qs \<noteq> [] \<and> (\<forall>q \<in> set qs. 4 \<le> length (options q))
        \<and> 0 \<le> current_question_idx s
        \<and> choice \<in> {None, Some ''A'', Some ''B'', Some ''C'', Some ''D''}
      \<longrightarrow> (\<forall>e. ended (quiz s choice pressed) \<noteq> Raised e)
          \<and> take 1 (shown (quiz s choice pressed))
              = [Progress (int (card (attempted_questions s))) (int (length qs))])"
proof (intro conjI impI)
  assume "quiz_questions s = Some []"
  then show "ended (quiz s choice pressed) = Raised ZeroDivisionError"
    by (simp add: quiz_def stop_def)
next
  assume "quiz_questions s = Some qs \<and> \<not> quiz_completed s
        \<and> 0 \<le> current_question_idx s \<and> current_question_idx s < int (length qs)
        \<and> length (options (qs ! nat (current_question_idx s))) < 4"
  then show "ended (quiz s choice pressed) = Raised IndexError"
    by (auto simp: quiz_def question_step_def stop_def Let_def getitem_in_range
          option_labels_fewer)
next
  assume h: "quiz_questions s = Some qs \<and> qs \<noteq> [] \<and> (\<forall>q \<in> set qs. 4 \<le> length (options q))
        \<and> 0 \<le> current_question_idx s
        \<and> choice \<in> {None, Some ''A'', Some ''B'', Some ''C'', Some ''D''}"
  show "\<forall>e. ended (quiz s choice pressed) \<noteq> Raised e"
  proof (cases "\<not> quiz_completed s \<and> current_question_idx s < int (length qs)")
    case False
    with h show ?thesis
      by (auto simp: quiz_def check_complete_def end_screen_def stop_def Let_def)
  next
    case True
    define opts where "opts = options (qs ! nat (current_question_idx s))"
    from h True have "nat (current_question_idx s) < length qs" by linarith
    then have "qs ! nat (current_question_idx s) \<in> set qs" by (rule nth_mem)
    with h have four: "4 \<le> length opts" by (simp add: opts_def)
    have look: "\<exists>v. lookup opts (selected (map fst opts) c) = Inr v"
      if "c \<in> {''A'', ''B'', ''C'', ''D''}" for c
    proof -
      from that obtain k where k: "(c, k) \<in> {(''A'', 0), (''B'', 1), (''C'', 2), (''D'', 3::nat)}"
        by auto
      from selected_letter [OF k, of "map fst opts"] four lookup_label [of k opts]
      show ?thesis by auto
    qed
    from h True four have E: "ended (quiz s choice pressed) =
          (if pressed then
             (case choice of
                None \<Rightarrow> Rerun
              | Some c \<Rightarrow>
                  if c = [] then Rerun
                  else (case lookup opts (selected (map fst opts) c) of
                          Inl e \<Rightarrow> Raised e
                        | Inr correct \<Rightarrow> Rerun))
           else Finished)"
      using quiz_in_progress(2) [of s qs choice pressed] unfolding opts_def by simp
    show ?thesis
    proof (cases choice)
      case None
      with E show ?thesis by simp
    next
      case (Some c)
      with h have "c \<in> {''A'', ''B'', ''C'', ''D''}" by auto
      from look [OF this] obtain v where "lookup opts (selected (map fst opts) c) = Inr v"
        by blast
      with Some E show ?thesis by simp
    qed
  qed
  from h show "take 1 (shown (quiz s choice pressed))
              = [Progress (int (card (attempted_questions s))) (int (length qs))]"
    by (auto simp: quiz_def question_step_def check_complete_def end_screen_def stop_def
          Let_def split: option.splits sum.splits)
qed

theorem rendering_is_partial_witness:
  "ended (quiz (generated_quiz []) (Some ''A'') False) = Raised ZeroDivisionError
   \<and> ended (quiz (generated_quiz [short_question]) (Some ''A'') False) = Raised IndexError
   \<and> ended (quiz (generated_quiz [sample_question]) (Some ''A'') False) \<noteq> Raised IndexError
   \<and> take 1 (shown (quiz (generated_quiz [sample_question]) (Some ''A'') False))
       = [Progress 0 1]"
  using rendering_is_partial [of "generated_quiz []" "Some ''A''" False "[]"]
    rendering_is_partial [of "generated_quiz [short_question]" "Some ''A''" False
      "[short_question]"]
    rendering_is_partial [of "generated_quiz [sample_question]" "Some ''A''" False
      "[sample_question]"]
  by (simp add: generated_quiz_fields sample_question_def short_question_def)

subsection \<open>Reruns\<close>

lemma rerun_quiz_unfold:
  "rerun_quiz s choice =
     (if ended (quiz s choice False) = Rerun
      then rerun_quiz (sess (quiz s choice False)) choice
      else quiz s choice False)"
  by (simp add: rerun_quiz.simps [of s choice] Let_def)

lemma quiz_when_completed:
  "quiz_questions s = Some qs \<Longrightarrow> quiz_completed s \<Longrightarrow>
     sess (quiz s c b) = s\<lparr>total_questions := int (length qs)\<rparr>
     \<and> ended (quiz s c b) \<noteq> Rerun"
  by (auto simp: quiz_def end_screen_def stop_def Let_def)

lemma quiz_past_end:
  "quiz_questions s = Some qs \<Longrightarrow> qs \<noteq> [] \<Longrightarrow> \<not> quiz_completed s
     \<Longrightarrow> int (length qs) \<le> current_question_idx s \<Longrightarrow>
     sess (quiz s c b) = s\<lparr>total_questions := int (length qs), quiz_completed := True\<rparr>
     \<and> ended (quiz s c b) = Rerun"
  by (auto simp: quiz_def check_complete_def stop_def Let_def)

lemma quiz_shows_question:
  "quiz_questions s = Some qs \<Longrightarrow> \<not> quiz_completed s
     \<Longrightarrow> current_question_idx s < int (length qs) \<Longrightarrow>
     sess (quiz s c False) = s\<lparr>total_questions := int (length qs)\<rparr>
     \<and> ended (quiz s c False) \<noteq> Rerun"
  by (auto simp: quiz_def question_step_def check_complete_def end_screen_def stop_def
        Let_def split: option.splits sum.splits)

lemma rerun_completed:
  assumes "quiz_questions s = Some qs" "quiz_completed s"
  shows "sess (rerun_quiz s c) = s\<lparr>total_questions := int (length qs)\<rparr>"
  using quiz_when_completed [OF assms, of c False]
  by (simp add: rerun_quiz_unfold [of s c])

lemma rerun_in_progress:
  assumes "quiz_questions s = Some qs" "\<not> quiz_completed s"
    "current_question_idx s < int (length qs)"
  shows "sess (rerun_quiz s c) = s\<lparr>total_questions := int (length qs)\<rparr>"
  using quiz_shows_question [OF assms, of c]
  by (simp add: rerun_quiz_unfold [of s c])

lemma rerun_past_end:
  assumes "quiz_questions s = Some qs" "qs \<noteq> []" "\<not> quiz_completed s"
    "int (length qs) \<le> current_question_idx s"
  shows "sess (rerun_quiz s c)
           = s\<lparr>total_questions := int (length qs), quiz_completed := True\<rparr>"
proof -
  let ?s1 = "s\<lparr>total_questions := int (length qs), quiz_completed := True\<rparr>"
  from quiz_past_end [OF assms, of c False]
  have "rerun_quiz s c = rerun_quiz ?s1 c"
    by (simp add: rerun_quiz_unfold [of s c])
  moreover have "sess (rerun_quiz ?s1 c) = ?s1\<lparr>total_questions := int (length qs)\<rparr>"
    using assms(1) by (intro rerun_completed) simp_all
  ultimately show ?thesis by simp
qed

subsection \<open>The invariant of the quiz progress\<close>

lemma attempted_next:
  "0 \<le> i \<Longrightarrow> insert i {0 ..< i} = {0 ..< i + (1::int)}"
  by auto

lemma invariant_quiz:
  assumes "quiz_invariant qs s"
  shows "quiz_invariant qs (sess (quiz s c b))"
proof -
  from assms have q: "quiz_questions s = Some qs" by (simp add: quiz_invariant_def)
  from quiz_cases [OF q, of c b] show ?thesis
  proof (elim disjE conjE exE)
    assume "sess (quiz s c b) = s\<lparr>total_questions := int (length qs)\<rparr>"
    with assms show ?thesis by (simp add: quiz_invariant_def)
  next
    assume "sess (quiz s c b)
              = s\<lparr>total_questions := int (length qs), quiz_completed := True\<rparr>"
    with assms show ?thesis by (simp add: quiz_invariant_def)
  next
    fix v
    assume "current_question_idx s < int (length qs)"
      and "sess (quiz s c b) = next_question (s\<lparr>total_questions := int (length qs)\<rparr>) v"
    with assms show ?thesis
      by (simp add: quiz_invariant_def next_question_def attempted_next)
  qed
qed

lemma invariant_rerun:
  "quiz_invariant qs s \<Longrightarrow> quiz_invariant qs (sess (rerun_quiz s c))"
proof (induction s c rule: rerun_quiz.induct)
  case (1 s choice)
  show ?case
  proof (cases "ended (quiz s choice False) = Rerun")
    case True
    from "1.prems" have "quiz_invariant qs (sess (quiz s choice False))"
      by (rule invariant_quiz)
    from "1.IH" [OF refl True this] True show ?thesis
      by (simp add: rerun_quiz_unfold [of s choice])
  next
    case False
    with "1.prems" show ?thesis
      by (simp add: rerun_quiz_unfold [of s choice] invariant_quiz)
  qed
qed

lemma invariant_submit:
  "quiz_invariant qs s \<Longrightarrow> quiz_invariant qs (sess (submit s c))"
  by (simp add: submit_def Let_def invariant_quiz invariant_rerun)

lemma invariant_submissions:
  "quiz_invariant qs s \<Longrightarrow> quiz_invariant qs (submissions s cs)"
  by (induction cs arbitrary: s) (simp_all add: invariant_submit)

lemma invariant_generated: "quiz_invariant qs (generated_quiz qs)"
  by (simp add: quiz_invariant_def generated_quiz_fields)

subsection \<open>The index never decreases\<close>

lemma index_quiz: "current_question_idx s \<le> current_question_idx (sess (quiz s c b))"
  by (auto simp: quiz_def question_step_def check_complete_def end_screen_def stop_def
        next_question_def Let_def split: option.splits sum.splits)

lemma index_rerun: "current_question_idx s \<le> current_question_idx (sess (rerun_quiz s c))"
proof (induction s c rule: rerun_quiz.induct)
  case (1 s choice)
  show ?case
  proof (cases "ended (quiz s choice False) = Rerun")
    case True
    from "1.IH" [OF refl True] index_quiz [of s choice False] True show ?thesis
      by (simp add: rerun_quiz_unfold [of s choice])
  next
    case False
    then show ?thesis
      by (simp add: rerun_quiz_unfold [of s choice] index_quiz)
  qed
qed

lemma index_submit: "current_question_idx s \<le> current_question_idx (sess (submit s c))"
  using index_quiz [of s c True] index_rerun [of "sess (quiz s c True)" c]
  by (simp add: submit_def Let_def)

lemma index_submissions:
  "current_question_idx s \<le> current_question_idx (submissions s cs)"
proof (induction cs arbitrary: s)
  case Nil
  show ?case by simp
next
  case (Cons c cs)
  from index_submit [of s c] Cons.IH [of "sess (submit s c)"] show ?case by simp
qed

lemma submissions_append:
  "submissions s (cs @ later) = submissions (submissions s cs) later"
  by (induction cs arbitrary: s) simp_all

text \<open>
  Claim C2. Start from the store as it is when the quiz has just been generated (index
  0, nothing attempted, score 0) and let the user click "Next Question" any number of
  times, with anything selected. In the resulting store the score is at most the number
  of attempted questions, which is at most the stored total. The current index never
  decreases: not in a single run of the page, not in a click with its reruns, not along
  a longer sequence of clicks.
\<close>

theorem quiz_score_invariant:
  "score (submissions (generated_quiz qs) cs)
     \<le> int (card (attempted_questions (submissions (generated_quiz qs) cs)))
   \<and> int (card (attempted_questions (submissions (generated_quiz qs) cs)))
       \<le> total_questions (submissions (generated_quiz qs) cs)
   \<and> current_question_idx s \<le> current_question_idx (sess (quiz s choice pressed))
   \<and> current_question_idx s \<le> current_question_idx (sess (submit s choice))
   \<and> current_question_idx (submissions s cs)
       \<le> current_question_idx (submissions s (cs @ later))"
proof -
  have "quiz_invariant qs (submissions (generated_quiz qs) cs)"
    by (intro invariant_submissions invariant_generated)
  then have "score (submissions (generated_quiz qs) cs)
     \<le> int (card (attempted_questions (submissions (generated_quiz qs) cs)))
   \<and> int (card (attempted_questions (submissions (generated_quiz qs) cs)))
       \<le> total_questions (submissions (generated_quiz qs) cs)"
    by (simp add: quiz_invariant_def)
  then show ?thesis
    by (simp add: index_quiz index_submit submissions_append index_submissions)
qed

theorem quiz_score_invariant_witness:
  "score (submissions (generated_quiz [sample_question, sample_question])
            [Some ''A'', Some ''B''])
     \<le> int (card (attempted_questions
            (submissions (generated_quiz [sample_question, sample_question])
               [Some ''A'', Some ''B''])))
   \<and> int (card (attempted_questions
            (submissions (generated_quiz [sample_question, sample_question])
               [Some ''A'', Some ''B''])))
       \<le> total_questions (submissions (generated_quiz [sample_question, sample_question])
            [Some ''A'', Some ''B''])"
  using quiz_score_invariant [of "[sample_question, sample_question]"
      "[Some ''A'', Some ''B'']" "generated_quiz []" None False "[]"]
  by simp

subsection \<open>Completion\<close>

lemma completed_quiz: "quiz_completed s \<Longrightarrow> quiz_completed (sess (quiz s c b))"
  by (auto simp: quiz_def end_screen_def stop_def Let_def split: option.splits)

lemma completed_rerun:
  assumes "quiz_completed s"
  shows "quiz_completed (sess (rerun_quiz s c))"
proof (cases "quiz_questions s")
  case None
  then have "quiz s c False = stop s [] (Raised TypeError)"
    by (simp add: quiz_def)
  then have "rerun_quiz s c = stop s [] (Raised TypeError)"
    by (simp add: rerun_quiz_unfold [of s c] stop_def)
  with assms show ?thesis by (simp add: stop_def)
next
  case (Some qs)
  from rerun_completed [OF Some assms, of c] assms show ?thesis by simp
qed

lemma completed_submit: "quiz_completed s \<Longrightarrow> quiz_completed (sess (submit s c))"
  by (simp add: submit_def Let_def completed_quiz completed_rerun)

lemma completed_submissions: "quiz_completed s \<Longrightarrow> quiz_completed (submissions s cs)"
  by (induction cs arbitrary: s) (simp_all add: completed_submit)

lemma generate_loop_flag:
  "quiz_completed (sess (generate_loop answer_chain qs r)) = quiz_completed (sess r)"
proof (induction qs arbitrary: r)
  case Nil
  show ?case by simp
next
  case (Cons q qs)
  show ?case
    by (cases "answer_chain q") (simp_all add: Let_def Cons.IH)
qed

lemma completed_pages:
  "quiz_completed (sess (notes_page notes_chain s pressed)) = quiz_completed s"
  "quiz_completed (sess (fst (qna_page questions_chain answer_chain cache s pressed)))
     = quiz_completed s"
  by (simp_all add: notes_page_def qna_page_def generate_qna_def generate_loop_flag stop_def
        Let_def split: option.splits sum.splits)

text \<open>A click with one of the four letters selected, in an in-progress state: the index
  advances, and the reruns that follow set the flag exactly when the new index has
  reached the number of questions.\<close>

lemma submit_step:
  assumes q: "quiz_questions s = Some qs" and n: "\<not> quiz_completed s"
    and i: "0 \<le> current_question_idx s" "current_question_idx s < int (length qs)"
    and four: "4 \<le> length (options (qs ! nat (current_question_idx s)))"
    and c: "c \<in> {''A'', ''B'', ''C'', ''D''}"
  shows "quiz_questions (sess (submit s (Some c))) = Some qs
         \<and> current_question_idx (sess (submit s (Some c))) = current_question_idx s + 1
         \<and> quiz_completed (sess (submit s (Some c)))
             = (int (length qs) \<le> current_question_idx s + 1)"
proof -
  define opts where "opts = options (qs ! nat (current_question_idx s))"
  from c obtain k where k: "(c, k) \<in> {(''A'', 0), (''B'', 1), (''C'', 2), (''D'', 3::nat)}"
    by auto
  from selected_letter [OF k, of "map fst opts"]
  have sel: "selected (map fst opts) c = Some (map fst opts ! k)" "c \<noteq> []" "k < 4"
    by simp_all
  from four sel(3) have "k < length opts" by (simp add: opts_def)
  from lookup_label [OF this] obtain v where
    v: "lookup opts (Some (map fst opts ! k)) = Inr v" by blast
  define s1 where "s1 = next_question (s\<lparr>total_questions := int (length qs)\<rparr>) v"
  have run: "sess (quiz s (Some c) True) = s1" "ended (quiz s (Some c) True) = Rerun"
    using quiz_in_progress [OF q n i four, of "Some c" True] sel v
    by (simp_all add: opts_def s1_def)
  then have sub: "sess (submit s (Some c)) = sess (rerun_quiz s1 (Some c))"
    by (simp add: submit_def Let_def)
  have s1: "quiz_questions s1 = Some qs" "\<not> quiz_completed s1"
    "current_question_idx s1 = current_question_idx s + 1"
    using q n by (simp_all add: s1_def next_question_def)
  from i have ne: "qs \<noteq> []" by auto
  show ?thesis
  proof (cases "current_question_idx s1 < int (length qs)")
    case True
    from rerun_in_progress [OF s1(1,2) True, of "Some c"] s1 True show ?thesis
      by (simp add: sub)
  next
    case False
    then have "int (length qs) \<le> current_question_idx s1" by simp
    from rerun_past_end [OF s1(1) ne s1(2) this, of "Some c"] s1 False show ?thesis
      by (simp add: sub)
  qed
qed

lemma submissions_progress:
  assumes wf: "\<forall>q \<in> set qs. 4 \<le> length (options q)"
    and cs: "\<forall>c \<in> set cs. c \<in> {Some ''A'', Some ''B'', Some ''C'', Some ''D''}"
    and s: "quiz_questions s = Some qs" "0 \<le> current_question_idx s"
      "quiz_completed s = (int (length qs) \<le> current_question_idx s)"
    and room: "current_question_idx s + int (length cs) \<le> int (length qs)"
  shows "current_question_idx (submissions s cs) = current_question_idx s + int (length cs)
         \<and> quiz_completed (submissions s cs)
             = (int (length qs) \<le> current_question_idx s + int (length cs))"
  using cs s room
proof (induction cs arbitrary: s)
  case Nil
  then show ?case by simp
next
  case (Cons choice cs)
  from Cons.prems(1) obtain c where c: "choice = Some c" "c \<in> {''A'', ''B'', ''C'', ''D''}"
    by auto
  from Cons.prems have i: "current_question_idx s < int (length qs)" by simp
  with Cons.prems have n: "\<not> quiz_completed s" by simp
  from i Cons.prems(3) have "nat (current_question_idx s) < length qs" by linarith
  then have "qs ! nat (current_question_idx s) \<in> set qs" by (rule nth_mem)
  with wf have four: "4 \<le> length (options (qs ! nat (current_question_idx s)))" by simp
  let ?s1 = "sess (submit s (Some c))"
  from submit_step [OF Cons.prems(2) n Cons.prems(3) i four c(2)]
  have s1: "quiz_questions ?s1 = Some qs"
    "current_question_idx ?s1 = current_question_idx s + 1"
    "quiz_completed ?s1 = (int (length qs) \<le> current_question_idx ?s1)"
    by simp_all
  from Cons.prems(1) have "\<forall>c \<in> set cs. c \<in> {Some ''A'', Some ''B'', Some ''C'', Some ''D''}"
    by simp
  then have ih: "current_question_idx (submissions ?s1 cs)
                   = current_question_idx ?s1 + int (length cs)
                 \<and> quiz_completed (submissions ?s1 cs)
                   = (int (length qs) \<le> current_question_idx ?s1 + int (length cs))"
    using s1 Cons.prems(3,5) by (intro Cons.IH) simp_all
  have "submissions s (choice # cs) = submissions ?s1 cs"
    by (simp add: c(1))
  with ih s1(2) show ?case by (simp add: algebra_simps)
qed

text \<open>
  Claim C3. For a quiz of \<open>N \<ge> 1\<close> questions, each with its four options, and clicks
  on "Next Question" with one of the four letters selected: after \<open>N\<close> such clicks the
  completion flag is true, and after fewer it is still false. A run of the quiz page
  that starts with the flag unset sets it exactly when the current index has reached
  or passed the number of questions. Once set, the flag stays set: no run of the Quiz
  page, no click, no sequence of clicks and neither the Notes nor the Q&A page clears
  it.
\<close>

theorem completion_detection:
  "(qs \<noteq> [] \<and> (\<forall>q \<in> set qs. 4 \<le> length (options q))
      \<and> (\<forall>c \<in> set cs. c \<in> {Some ''A'', Some ''B'', Some ''C'', Some ''D''})
      \<and> length cs \<le> length qs
    \<longrightarrow> quiz_completed (submissions (generated_quiz qs) cs) = (length cs = length qs))
   \<and> (quiz_questions s = Some qs \<and> qs \<noteq> [] \<and> \<not> quiz_completed s
    \<longrightarrow> quiz_completed (sess (quiz s choice pressed))
          = (int (length qs) \<le> current_question_idx s))
   \<and> (quiz_completed s
    \<longrightarrow> quiz_completed (sess (quiz s choice pressed))
        \<and> quiz_completed (sess (submit s choice))
        \<and> quiz_completed (submissions s later)
        \<and> quiz_completed (sess (notes_page notes_chain s pressed))
        \<and> quiz_completed (sess (fst (qna_page questions_chain answer_chain cache s pressed))))"
proof (intro conjI impI)
  assume h: "qs \<noteq> [] \<and> (\<forall>q \<in> set qs. 4 \<le> length (options q))
      \<and> (\<forall>c \<in> set cs. c \<in> {Some ''A'', Some ''B'', Some ''C'', Some ''D''})
      \<and> length cs \<le> length qs"
  then have "quiz_completed (submissions (generated_quiz qs) cs)
               = (int (length qs) \<le> current_question_idx (generated_quiz qs) + int (length cs))"
    using submissions_progress [of qs cs "generated_quiz qs"]
    by (simp add: generated_quiz_fields)
  with h show "quiz_completed (submissions (generated_quiz qs) cs) = (length cs = length qs)"
    by (auto simp: generated_quiz_fields)
next
  assume "quiz_questions s = Some qs \<and> qs \<noteq> [] \<and> \<not> quiz_completed s"
  then show "quiz_completed (sess (quiz s choice pressed))
          = (int (length qs) \<le> current_question_idx s)"
    by (auto simp: quiz_def question_step_def check_complete_def end_screen_def stop_def
          next_question_def Let_def split: option.splits sum.splits)
qed (simp_all add: completed_quiz completed_submit completed_submissions completed_pages)

theorem completion_detection_witness:
  "quiz_completed (submissions (generated_quiz [sample_question, sample_question])
                     [Some ''A'', Some ''B''])
   \<and> \<not> quiz_completed (submissions (generated_quiz [sample_question, sample_question])
                         [Some ''A''])
   \<and> \<not> quiz_completed (sess (quiz (generated_quiz [sample_question]) (Some ''A'') True))"
  using completion_detection [of "[sample_question, sample_question]"
      "[Some ''A'', Some ''B'']" "generated_quiz [sample_question]" "Some ''A''" True "[]"]
    completion_detection [of "[sample_question, sample_question]"
      "[Some ''A'']" "generated_quiz [sample_question]" "Some ''A''" True "[]"]
    completion_detection [of "[sample_question]"
      "[]" "generated_quiz [sample_question]" "Some ''A''" True "[]"]
  by (simp add: generated_quiz_fields sample_question_def)

end
